theory Spec2Isabelle
  imports Main "HOL-Library.Sublist"
begin

section \<open>Errors\<close>

text \<open>
  Exceptions of the program are values. \<open>GrammarError\<close> is the exception class of the
  module; \<open>ValueError\<close>, \<open>IndexError\<close>, \<open>TypeError\<close> and \<open>ReError\<close> (Python's
  \<^verbatim>\<open>re.error\<close>) are the exceptions its library calls raise. \<open>Unsupported_pattern\<close> is
  no exception of Python: it marks a regular expression outside the fragment of the
  \<^verbatim>\<open>re\<close> syntax that \<open>re_compile\<close> below covers, where the model says nothing about
  the program.
\<close>

datatype error = GrammarError | ValueError | IndexError | TypeError | ReError
  | Unsupported_pattern

section \<open>String operations of Python\<close>

text \<open>
  \<^verbatim>\<open>x in a\<close> on strings, through the index of the leftmost occurrence
  (\<^verbatim>\<open>a.find(x)\<close>). The empty string occurs in every string, at index 0.
\<close>

fun str_find :: "string \<Rightarrow> string \<Rightarrow> nat option" where
  "str_find sub [] = (if sub = [] then Some 0 else None)"
| "str_find sub (c # cs) =
     (if prefix sub (c # cs) then Some 0 else map_option Suc (str_find sub cs))"

definition str_in :: "string \<Rightarrow> string \<Rightarrow> bool" where
  "str_in x a = (str_find x a \<noteq> None)"

text \<open>
  \<^verbatim>\<open>s.split(sep, maxsplit)\<close> for a non-empty separator: the string is cut at the
  leftmost occurrences of \<open>sep\<close>, at most \<open>maxsplit\<close> times; \<open>None\<close> is Python's
  default \<open>-1\<close>, no limit. Python raises \<open>ValueError\<close> on the empty separator, which
  \<open>py_split\<close> reports; \<open>str_split\<close> itself returns \<open>[s]\<close> there.
\<close>

function str_split :: "string \<Rightarrow> string \<Rightarrow> nat option \<Rightarrow> string list" where
  "str_split s sep maxsplit =
     (if sep = [] \<or> maxsplit = Some 0 then [s]
      else case str_find sep s of
             None \<Rightarrow> [s]
           | Some i \<Rightarrow> take i s #
               str_split (drop (i + length sep) s) sep (map_option (\<lambda>n. n - 1) maxsplit))"
  by pat_completeness auto
termination
proof (relation "measure (\<lambda>(s, sep, maxsplit). length s)")
  show "wf (measure (\<lambda>(s, sep, maxsplit). length s))" by simp
next
  fix s sep :: string and maxsplit :: "nat option" and i :: nat
  assume ne: "\<not> (sep = [] \<or> maxsplit = Some 0)" and f: "str_find sep s = Some i"
  from ne have "sep \<noteq> []" by simp
  with f have "s \<noteq> []" by (cases s) auto
  with \<open>sep \<noteq> []\<close> have "length (drop (i + length sep) s) < length s" by simp
  then show "((drop (i + length sep) s, sep, map_option (\<lambda>n. n - 1) maxsplit),
              (s, sep, maxsplit)) \<in> measure (\<lambda>(s, sep, maxsplit). length s)"
    by simp
qed

declare str_split.simps [simp del]

definition py_split :: "string \<Rightarrow> string \<Rightarrow> nat option \<Rightarrow> error + string list" where
  "py_split s sep maxsplit =
     (if sep = [] then Inl ValueError else Inr (str_split s sep maxsplit))"

text \<open>\<^verbatim>\<open>sep.join(xs)\<close>.\<close>

fun str_join :: "string \<Rightarrow> string list \<Rightarrow> string" where
  "str_join sep [] = []"
| "str_join sep [x] = x"
| "str_join sep (x # y # ys) = x @ sep @ str_join sep (y # ys)"

section \<open>The fragment of Python's regular expressions\<close>

text \<open>
  \<open>Rule.get_children\<close> counts occurrences with \<^verbatim>\<open>re.findall(self.symbol, node)\<close>: the
  symbol is compiled as a regular expression. The model covers this much of the syntax
  of \<^verbatim>\<open>re\<close> (no flags):
  \<^item> a character other than the special characters \<^verbatim>\<open>. ^ $ * + ? { } [ ] \ | ( )\<close> matches
    itself;
  \<^item> \<^verbatim>\<open>.\<close> matches every character but the newline;
  \<^item> a pattern that starts with \<^verbatim>\<open>*\<close>, \<^verbatim>\<open>+\<close> or \<^verbatim>\<open>?\<close> does not compile: the parser
    raises \<^verbatim>\<open>re.error\<close> (nothing to repeat) at that first character;
  \<^item> every other pattern is \<open>Unsupported_pattern\<close>.
\<close>

datatype atom = Lit char | Dot

definition re_special :: "char list" where
  "re_special = [CHR ''.'', CHR ''^'', CHR ''$'', CHR ''*'', CHR ''+'', CHR ''?'',
     CHR ''{'', CHR ''}'', CHR ''['', CHR '']'', CHR 0x5C, CHR ''|'', CHR ''('', CHR '')'']"

fun parse_atoms :: "string \<Rightarrow> error + atom list" where
  "parse_atoms [] = Inr []"
| "parse_atoms (c # cs) =
     (if c = CHR ''.'' then
        (case parse_atoms cs of Inl e \<Rightarrow> Inl e | Inr as \<Rightarrow> Inr (Dot # as))
      else if c \<in> set re_special then Inl Unsupported_pattern
      else (case parse_atoms cs of Inl e \<Rightarrow> Inl e | Inr as \<Rightarrow> Inr (Lit c # as)))"

definition re_compile :: "string \<Rightarrow> error + atom list" where
  "re_compile pattern =
     (case pattern of
        [] \<Rightarrow> Inr []
      | c # cs \<Rightarrow>
          if c = CHR ''*'' \<or> c = CHR ''+'' \<or> c = CHR ''?'' then Inl ReError
          else parse_atoms pattern)"

fun atom_matches :: "atom \<Rightarrow> char \<Rightarrow> bool" where
  "atom_matches (Lit c) d = (c = d)"
| "atom_matches Dot d = (d \<noteq> CHR 0x0A)"

fun match_here :: "atom list \<Rightarrow> string \<Rightarrow> bool" where
  "match_here [] s = True"
| "match_here (a # as) [] = False"
| "match_here (a # as) (c # cs) = (atom_matches a c \<and> match_here as cs)"

text \<open>
  The matches of \<^verbatim>\<open>findall\<close>: the string is scanned from the left, a match is taken
  where the pattern matches and the scan goes on behind it, so matches do not overlap.
  The empty pattern matches the empty string at every position, the end included.
\<close>

function findall :: "atom list \<Rightarrow> string \<Rightarrow> string list" where
  "findall p s =
     (if p = [] then replicate (length s + 1) []
      else if s = [] then []
      else if match_here p s then take (length p) s # findall p (drop (length p) s)
      else findall p (tl s))"
  by pat_completeness auto
termination
  by (relation "measure (\<lambda>(p, s). length s)") auto

declare findall.simps [simp del]

definition re_findall :: "string \<Rightarrow> string \<Rightarrow> error + string list" where
  "re_findall pattern s =
     (case re_compile pattern of Inl e \<Rightarrow> Inl e | Inr p \<Rightarrow> Inr (findall p s))"

section \<open>Rule\<close>

text \<open>
  The attributes of \<open>Rule\<close> with the types its docstring gives them: \<open>symbol\<close> a string,
  \<open>patterns\<close> a list of strings.
\<close>

record rule =
  symbol :: string
  patterns :: "string list"

definition ARROW_SEPERATOR :: string where
  "ARROW_SEPERATOR = '' -> ''"

definition RULE_DELIMETER :: string where
  "RULE_DELIMETER = '' | ''"

text \<open>
  \<open>Rule.__string_to_rule_info\<close>. The assignment \<^verbatim>\<open>symbol, patterns = string.split(...)\<close>
  raises \<open>ValueError\<close> unless the split has exactly two parts.
\<close>

definition string_to_rule_info :: "string \<Rightarrow> error + (string \<times> string list)" where
  "string_to_rule_info string =
     (case py_split string ARROW_SEPERATOR None of
        Inl e \<Rightarrow> Inl e
      | Inr [smb, rhs] \<Rightarrow>
          (case py_split rhs RULE_DELIMETER None of
             Inl e \<Rightarrow> Inl e
           | Inr pats \<Rightarrow> Inr (smb, pats))
      | Inr _ \<Rightarrow> Inl ValueError)"

text \<open>
  \<open>Rule.__init__\<close>, each argument \<open>None\<close> by default. Without \<open>string\<close>, Python stores
  \<open>symbol\<close> and \<open>patterns\<close> as they are, \<open>None\<close> included, and raises \<open>TypeError\<close> only
  where a \<open>None\<close> attribute is used: a symbol in \<^verbatim>\<open>re.findall\<close>, the patterns once the
  symbol has a match. The record has no such value, and the model reports the
  \<open>TypeError\<close> at the construction; nothing below is about that case.
\<close>

definition Rule_init :: "string option \<Rightarrow> string list option \<Rightarrow> string option \<Rightarrow> error + rule" where
  "Rule_init symbol' patterns' string =
     (case string of
        Some str \<Rightarrow>
          (case string_to_rule_info str of
             Inl e \<Rightarrow> Inl e
           | Inr (smb, pats) \<Rightarrow> Inr \<lparr>symbol = smb, patterns = pats\<rparr>)
      | None \<Rightarrow>
          (case (symbol', patterns') of
             (Some smb, Some pats) \<Rightarrow> Inr \<lparr>symbol = smb, patterns = pats\<rparr>
           | _ \<Rightarrow> Inl TypeError))"

text \<open>
  \<open>Rule.__replace_nth_substring\<close>: \<^verbatim>\<open>*splits, tail = string.split(substring, n+1)\<close>, then
  \<^verbatim>\<open>replacement_string.join([substring.join(splits), tail])\<close>. A split is never empty,
  so \<open>tail\<close> is its last part and \<open>splits\<close> the parts before.
\<close>

definition replace_nth_substring :: "string \<Rightarrow> string \<Rightarrow> string \<Rightarrow> nat \<Rightarrow> error + string" where
  "replace_nth_substring string substring replacement_string n =
     (case py_split string substring (Some (n + 1)) of
        Inl e \<Rightarrow> Inl e
      | Inr parts \<Rightarrow>
          Inr (str_join replacement_string [str_join substring (butlast parts), last parts]))"

text \<open>
  \<open>Rule.get_children\<close>: the two nested loops, the first exception ending them.
  \<^verbatim>\<open>re.findall\<close> is a parameter, \<open>lib_findall\<close>: the function takes from it only the number of
  the matches, or the exception. \<open>Rule_get_children_with lib_findall\<close> is the method for
  whatever the library does on a symbol and a sentence, and \<open>Rule_get_children\<close> is the
  method with the regular expressions of the fragment above.
\<close>

type_synonym findall_function = "string \<Rightarrow> string \<Rightarrow> error + string list"

fun patterns_loop :: "string \<Rightarrow> string \<Rightarrow> nat \<Rightarrow> string list \<Rightarrow> string list \<Rightarrow> error + string list" where
  "patterns_loop node smb i [] children = Inr children"
| "patterns_loop node smb i (pattern # ps) children =
     (case replace_nth_substring node smb pattern i of
        Inl e \<Rightarrow> Inl e
      | Inr c \<Rightarrow> patterns_loop node smb i ps (children @ [c]))"

fun occurrences_loop :: "rule \<Rightarrow> string \<Rightarrow> nat list \<Rightarrow> string list \<Rightarrow> error + string list" where
  "occurrences_loop r node [] children = Inr children"
| "occurrences_loop r node (i # is) children =
     (case patterns_loop node (symbol r) i (patterns r) children of
        Inl e \<Rightarrow> Inl e
      | Inr children' \<Rightarrow> occurrences_loop r node is children')"

definition Rule_get_children_with ::
    "findall_function \<Rightarrow> rule \<Rightarrow> string \<Rightarrow> error + string list" where
  "Rule_get_children_with lib_findall r node =
     (case lib_findall (symbol r) node of
        Inl e \<Rightarrow> Inl e
      | Inr found \<Rightarrow> occurrences_loop r node [0..<length found] [])"

definition Rule_get_children :: "rule \<Rightarrow> string \<Rightarrow> error + string list" where
  "Rule_get_children r node = Rule_get_children_with re_findall r node"

section \<open>Grammar\<close>

record grammar =
  rules :: "rule list"

fun strings_to_rules :: "string list \<Rightarrow> error + rule list" where
  "strings_to_rules [] = Inr []"
| "strings_to_rules (x # xs) =
     (case Rule_init None None (Some x) of
        Inl e \<Rightarrow> Inl e
      | Inr r \<Rightarrow> (case strings_to_rules xs of Inl e \<Rightarrow> Inl e | Inr rs \<Rightarrow> Inr (r # rs)))"

definition Grammar_init :: "rule list option \<Rightarrow> string list option \<Rightarrow> error + grammar" where
  "Grammar_init rules' string_rules =
     (case string_rules of
        Some strings \<Rightarrow>
          (case strings_to_rules strings of
             Inl e \<Rightarrow> Inl e
           | Inr rs \<Rightarrow> Inr \<lparr>rules = rs\<rparr>)
      | None \<Rightarrow>
          (case rules' of
             Some rs \<Rightarrow> Inr \<lparr>rules = rs\<rparr>
           | None \<Rightarrow> Inl GrammarError))"

fun get_symbols_loop :: "rule list \<Rightarrow> string list \<Rightarrow> string list" where
  "get_symbols_loop [] rule_symbols = rule_symbols"
| "get_symbols_loop (r # rs) rule_symbols = get_symbols_loop rs (rule_symbols @ [symbol r])"

definition get_symbols :: "grammar \<Rightarrow> string list" where
  "get_symbols g = get_symbols_loop (rules g) []"

definition default_root :: "grammar \<Rightarrow> string" where
  "default_root g = str_join [] (get_symbols g)"

text \<open>
  \<open>Grammar.get_children\<close>: the loop over the rules. Here and in the search, \<open>lib_findall\<close> is
  the \<^verbatim>\<open>re.findall\<close> that \<open>Rule.get_children\<close> calls.
\<close>

fun rules_loop ::
    "findall_function \<Rightarrow> rule list \<Rightarrow> string \<Rightarrow> string list \<Rightarrow> error + string list" where
  "rules_loop lib_findall [] node children = Inr children"
| "rules_loop lib_findall (r # rs) node children =
     (case Rule_get_children_with lib_findall r node of
        Inl e \<Rightarrow> Inl e
      | Inr cs \<Rightarrow> rules_loop lib_findall rs node (children @ cs))"

definition Grammar_get_children_with ::
    "findall_function \<Rightarrow> grammar \<Rightarrow> string \<Rightarrow> error + string list" where
  "Grammar_get_children_with lib_findall g node = rules_loop lib_findall (rules g) node []"

definition Grammar_get_children :: "grammar \<Rightarrow> string \<Rightarrow> error + string list" where
  "Grammar_get_children g node = Grammar_get_children_with re_findall g node"

text \<open>
  The filter of \<open>possible_strings\<close>,
  \<^verbatim>\<open>lambda a: bool([x for x in rule_symbols if x not in a])\<close>.
\<close>

definition terminal_test :: "string list \<Rightarrow> string \<Rightarrow> bool" where
  "terminal_test rule_symbols a = (filter (\<lambda>x. \<not> str_in x a) rule_symbols \<noteq> [])"

text \<open>
  \<open>possible_strings\<close>: the loop over the nodes of the last level, the loop over
  \<^verbatim>\<open>range(search_depth)\<close> (empty for a negative depth), and the filter over all levels.
\<close>

fun nodes_loop ::
    "findall_function \<Rightarrow> grammar \<Rightarrow> string list \<Rightarrow> string list \<Rightarrow> error + string list" where
  "nodes_loop lib_findall g [] level_strings = Inr level_strings"
| "nodes_loop lib_findall g (node # nodes) level_strings =
     (case Grammar_get_children_with lib_findall g node of
        Inl e \<Rightarrow> Inl e
      | Inr cs \<Rightarrow> nodes_loop lib_findall g nodes (level_strings @ cs))"

fun levels_loop ::
    "findall_function \<Rightarrow> grammar \<Rightarrow> nat \<Rightarrow> string list list \<Rightarrow> error + string list list" where
  "levels_loop lib_findall g 0 levels = Inr levels"
| "levels_loop lib_findall g (Suc n) levels =
     (if levels = [] then Inl IndexError
      else case nodes_loop lib_findall g (last levels) [] of
             Inl e \<Rightarrow> Inl e
           | Inr level_strings \<Rightarrow> levels_loop lib_findall g n (levels @ [level_strings]))"

definition possible_strings_with ::
    "findall_function \<Rightarrow> grammar \<Rightarrow> int \<Rightarrow> string option \<Rightarrow> error + string list" where
  "possible_strings_with lib_findall g search_depth root =
     (let root' = (case root of None \<Rightarrow> default_root g | Some r \<Rightarrow> r) in
      case levels_loop lib_findall g (nat search_depth) [[root']] of
        Inl e \<Rightarrow> Inl e
      | Inr levels \<Rightarrow> Inr (filter (terminal_test (get_symbols g)) (concat levels)))"

definition possible_strings :: "grammar \<Rightarrow> int \<Rightarrow> string option \<Rightarrow> error + string list" where
  "possible_strings g search_depth root = possible_strings_with re_findall g search_depth root"

section \<open>The specification's notions\<close>

text \<open>
  The occurrences of a symbol as the specification counts them: the sentence is scanned
  from the left for the literal symbol, and the scan goes on behind each occurrence
  found. \<open>spec_occurrences s w\<close> lists the start indices. For the empty symbol it follows
  \<^verbatim>\<open>str.count\<close>, which counts every position.
\<close>

function spec_occurrences :: "string \<Rightarrow> string \<Rightarrow> nat list" where
  "spec_occurrences s w =
     (if s = [] then [0..<length w + 1]
      else if w = [] then []
      else if prefix s w then
        0 # map (\<lambda>i. i + length s) (spec_occurrences s (drop (length s) w))
      else map Suc (spec_occurrences s (tl w)))"
  by pat_completeness auto
termination
  by (relation "measure (\<lambda>(s, w). length w)") auto

declare spec_occurrences.simps [simp del]

text \<open>
  The sentence \<open>w\<close> with the \<open>len\<close> characters at index \<open>pos\<close> replaced by \<open>p\<close>, and all
  the rest as it is.
\<close>

definition spec_replace_at :: "string \<Rightarrow> nat \<Rightarrow> nat \<Rightarrow> string \<Rightarrow> string" where
  "spec_replace_at w pos len p = take pos w @ p @ drop (pos + len) w"

text \<open>
  The single-step expansion of the specification: one child for each occurrence and each
  pattern, occurrences first.
\<close>

definition spec_expand_one_step :: "string \<Rightarrow> string list \<Rightarrow> string \<Rightarrow> string list" where
  "spec_expand_one_step s P w =
     concat (map (\<lambda>pos. map (\<lambda>p. spec_replace_at w pos (length s) p) P)
       (spec_occurrences s w))"

text \<open>
  The symbols on which a regular expression and a literal search agree: not empty, and
  without any special character of \<^verbatim>\<open>re\<close>.
\<close>

definition literal_symbol :: "string \<Rightarrow> bool" where
  "literal_symbol s = (s \<noteq> [] \<and> list_all (\<lambda>c. c \<notin> set re_special) s)"

text \<open>The grammar of the module's entry point, \<^verbatim>\<open>A -> 0 | 1 | 0A | 1A\<close>.\<close>

definition binary_grammar :: grammar where
  "binary_grammar = \<lparr>rules = [\<lparr>symbol = ''A'', patterns = [''0'', ''1'', ''0A'', ''1A'']\<rparr>]\<rparr>"

section \<open>Basic facts\<close>

lemma str_in_iff_sublist: "str_in x a \<longleftrightarrow> sublist x a"
  unfolding str_in_def
  by (induction a) (auto simp: sublist_Cons_right)




lemma binary_grammar_init:
  "Grammar_init None (Some [''A -> 0 | 1 | 0A | 1A'']) = Inr binary_grammar"
  by code_simp

lemma possible_strings_binary_1: "possible_strings binary_grammar 1 None = Inr [''0'', ''1'']"
  by code_simp

lemma possible_strings_binary_2:
  "possible_strings binary_grammar 2 None = Inr [''0'', ''1'', ''00'', ''01'', ''10'', ''11'']"
  by code_simp

section \<open>Single-step expansion of a rule\<close>

subsection \<open>The occurrences of the literal scan\<close>

text \<open>
  Each index listed is the start of an occurrence of the symbol, and the occurrences
  listed do not overlap.
\<close>

lemma spec_occurrences_prefix:
  "s \<noteq> [] \<Longrightarrow> pos \<in> set (spec_occurrences s w) \<Longrightarrow> prefix s (drop pos w)"
proof (induction s w arbitrary: pos rule: spec_occurrences.induct)
  case (1 s w)
  show ?case
  proof (cases "w = []")
    case True
    with "1.prems" show ?thesis by (simp add: spec_occurrences.simps [of _ "[]"])
  next
    case False
    show ?thesis
    proof (cases "prefix s w")
      case True
      with False "1.prems"(1) have "spec_occurrences s w =
          0 # map (\<lambda>i. i + length s) (spec_occurrences s (drop (length s) w))"
        by (subst spec_occurrences.simps) simp
      with "1.prems"(2) have "pos = 0 \<or>
          (\<exists>i \<in> set (spec_occurrences s (drop (length s) w)). pos = i + length s)"
        by auto
      then show ?thesis
      proof
        assume "pos = 0"
        with True show ?thesis by simp
      next
        assume "\<exists>i \<in> set (spec_occurrences s (drop (length s) w)). pos = i + length s"
        then obtain i where i: "i \<in> set (spec_occurrences s (drop (length s) w))"
          and pos: "pos = i + length s" by blast
        from "1.IH"(1) [OF "1.prems"(1) False True "1.prems"(1) i] pos show ?thesis
          by simp
      qed
    next
      case np: False
      with False "1.prems"(1) have "spec_occurrences s w = map Suc (spec_occurrences s (tl w))"
        by (subst spec_occurrences.simps) simp
      with "1.prems"(2) obtain i where i: "i \<in> set (spec_occurrences s (tl w))"
        and pos: "pos = Suc i"
        by auto
      from "1.IH"(2) [OF "1.prems"(1) False np "1.prems"(1) i] pos show ?thesis
        by (simp add: drop_Suc)
    qed
  qed
qed

lemma spec_occurrences_apart:
  "s \<noteq> [] \<Longrightarrow> sorted_wrt (\<lambda>a b. a + length s \<le> b) (spec_occurrences s w)"
proof (induction s w rule: spec_occurrences.induct)
  case (1 s w)
  show ?case
  proof (cases "w = []")
    case True
    with "1.prems" show ?thesis by (simp add: spec_occurrences.simps [of _ "[]"])
  next
    case False
    with "1.prems" "1.IH" show ?thesis
      by (subst spec_occurrences.simps) (auto simp: sorted_wrt_map)
  qed
qed

subsection \<open>Symbols without special characters\<close>

text \<open>
  On a literal symbol the regular expression finds the occurrences of the literal scan,
  and \<open>replace_nth_substring\<close> replaces the \<open>n\<close>-th of them.
\<close>

lemma parse_atoms_literal:
  "list_all (\<lambda>c. c \<notin> set re_special) s \<Longrightarrow> parse_atoms s = Inr (map Lit s)"
  by (induction s) (auto simp: re_special_def)

lemma re_compile_literal: "literal_symbol s \<Longrightarrow> re_compile s = Inr (map Lit s)"
  by (cases s) (auto simp: literal_symbol_def re_compile_def re_special_def parse_atoms_literal)

lemma match_here_literal: "match_here (map Lit s) w = prefix s w"
  by (induction "map Lit s" w arbitrary: s rule: match_here.induct) auto

lemma findall_literal_length:
  "s \<noteq> [] \<Longrightarrow> length (findall (map Lit s) w) = length (spec_occurrences s w)"
proof (induction s w rule: spec_occurrences.induct)
  case (1 s w)
  show ?case
  proof (cases "w = []")
    case True
    with 1 show ?thesis by (simp add: findall.simps [of _ "[]"] spec_occurrences.simps [of _ "[]"])
  next
    case False
    with "1.prems" "1.IH" show ?thesis
      by (simp add: findall.simps [of _ w] spec_occurrences.simps [of _ w] match_here_literal)
  qed
qed

lemma occurrences_find_None:
  "s \<noteq> [] \<Longrightarrow> str_find s w = None \<Longrightarrow> spec_occurrences s w = []"
proof (induction w)
  case Nil
  then show ?case by (simp add: spec_occurrences.simps [of _ "[]"])
next
  case (Cons c cs)
  then show ?case by (simp add: spec_occurrences.simps [of _ "c # cs"] split: if_splits)
qed

lemma occurrences_find_Some:
  "s \<noteq> [] \<Longrightarrow> str_find s w = Some j \<Longrightarrow>
     spec_occurrences s w =
       j # map (\<lambda>i. i + (j + length s)) (spec_occurrences s (drop (j + length s) w))"
proof (induction w arbitrary: j)
  case Nil
  then show ?case by simp
next
  case (Cons c cs)
  show ?case
  proof (cases "prefix s (c # cs)")
    case True
    with Cons.prems show ?thesis by (simp add: spec_occurrences.simps [of _ "c # cs"])
  next
    case False
    with Cons.prems obtain j' where j': "str_find s cs = Some j'" "j = Suc j'" by auto
    from Cons.IH [OF Cons.prems(1) j'(1)] False Cons.prems(1) j'(2) show ?thesis
      by (simp add: spec_occurrences.simps [of _ "c # cs"])
  qed
qed

lemma str_find_Some_prefix: "str_find s w = Some j \<Longrightarrow> prefix s (drop j w)"
  by (induction w arbitrary: j) (auto split: if_splits)

lemma str_find_Some_le: "str_find s w = Some j \<Longrightarrow> j \<le> length w"
  by (induction w arbitrary: j) (auto split: if_splits)

lemma str_find_Some_decomp:
  assumes "str_find s w = Some j"
  shows "w = take j w @ s @ drop (j + length s) w"
proof -
  from str_find_Some_prefix [OF assms] obtain zs where zs: "drop j w = s @ zs"
    by (auto simp: prefix_def)
  then have "drop (j + length s) w = zs"
    by (metis add.commute append_eq_conv_conj drop_drop)
  with zs show ?thesis by (metis append_take_drop_id)
qed

lemma str_join_Cons: "ys \<noteq> [] \<Longrightarrow> str_join sep (x # ys) = x @ sep @ str_join sep ys"
  by (cases ys) auto

lemma split_replace:
  "s \<noteq> [] \<Longrightarrow> n < length (spec_occurrences s w) \<Longrightarrow>
     2 \<le> length (str_split w s (Some (Suc n))) \<and>
     str_join s (butlast (str_split w s (Some (Suc n)))) @ p @ last (str_split w s (Some (Suc n))) =
       spec_replace_at w (spec_occurrences s w ! n) (length s) p"
proof (induction n arbitrary: w)
  case 0
  then obtain j where j: "str_find s w = Some j"
    using occurrences_find_None [of s w] by (cases "str_find s w") auto
  have sp: "str_split w s (Some (Suc 0)) = [take j w, drop (j + length s) w]"
    using 0(1) j by (simp add: str_split.simps [of w] str_split.simps [of _ _ "Some 0"])
  show ?case
    using occurrences_find_Some [OF 0(1) j] by (simp add: sp spec_replace_at_def)
next
  case (Suc n)
  then obtain j where j: "str_find s w = Some j"
    using occurrences_find_None [of s w] by (cases "str_find s w") auto
  define w' where "w' = drop (j + length s) w"
  have occ: "spec_occurrences s w = j # map (\<lambda>i. i + (j + length s)) (spec_occurrences s w')"
    using occurrences_find_Some [OF Suc.prems(1) j] by (simp add: w'_def)
  with Suc.prems have n: "n < length (spec_occurrences s w')" by simp
  note IH = Suc.IH [OF Suc.prems(1) n]
  define parts where "parts = str_split w' s (Some (Suc n))"
  have sp: "str_split w s (Some (Suc (Suc n))) = take j w # parts"
    using Suc.prems(1) j by (simp add: str_split.simps [of w] parts_def w'_def)
  from IH have len: "2 \<le> length parts" by (simp add: parts_def)
  then have ne: "parts \<noteq> []" "butlast parts \<noteq> []" by (cases parts; cases "tl parts"; auto)+
  have w: "w = take j w @ s @ w'" using str_find_Some_decomp [OF j] by (simp add: w'_def)
  have "str_join s (butlast (take j w # parts)) @ p @ last (take j w # parts) =
      take j w @ s @ (str_join s (butlast parts) @ p @ last parts)"
    using ne by (simp add: str_join_Cons)
  also have "\<dots> = take j w @ s @ spec_replace_at w' (spec_occurrences s w' ! n) (length s) p"
    using IH by (simp add: parts_def)
  also have "\<dots> = spec_replace_at w (spec_occurrences s w ! Suc n) (length s) p"
  proof -
    define q where "q = spec_occurrences s w' ! n"
    have lj: "min (length w) j = j"
      using str_find_Some_le [OF j] by simp
    have t: "take (q + (j + length s)) w = take j w @ s @ take q w'"
      by (subst w) (simp add: lj)
    have d: "drop (q + (j + length s) + length s) w = drop (q + length s) w'"
      by (simp add: w'_def add.commute add.left_commute)
    show ?thesis
      using n by (simp add: occ spec_replace_at_def q_def [symmetric] t d)
  qed
  finally show ?case using len by (simp add: sp)
qed

lemma replace_nth_substring_literal:
  "s \<noteq> [] \<Longrightarrow> n < length (spec_occurrences s w) \<Longrightarrow>
     replace_nth_substring w s p n = Inr (spec_replace_at w (spec_occurrences s w ! n) (length s) p)"
  using split_replace [of s n w p]
  by (simp add: replace_nth_substring_def py_split_def)

lemma patterns_loop_eq:
  "(\<And>p. p \<in> set ps \<Longrightarrow> replace_nth_substring node s p i = Inr (f p)) \<Longrightarrow>
     patterns_loop node s i ps children = Inr (children @ map f ps)"
  by (induction ps arbitrary: children) auto

lemma occurrences_loop_eq:
  "(\<And>i p. i \<in> set is \<Longrightarrow> p \<in> set (patterns r) \<Longrightarrow>
       replace_nth_substring node (symbol r) p i = Inr (f i p)) \<Longrightarrow>
     occurrences_loop r node is children =
       Inr (children @ concat (map (\<lambda>i. map (f i) (patterns r)) is))"
proof (induction "is" arbitrary: children)
  case Nil
  then show ?case by simp
next
  case (Cons i "is")
  have "patterns_loop node (symbol r) i (patterns r) children =
      Inr (children @ map (f i) (patterns r))"
    by (rule patterns_loop_eq) (simp add: Cons.prems)
  moreover have "occurrences_loop r node is (children @ map (f i) (patterns r)) =
      Inr ((children @ map (f i) (patterns r)) @ concat (map (\<lambda>i. map (f i) (patterns r)) is))"
    by (rule Cons.IH) (simp add: Cons.prems)
  ultimately show ?case by simp
qed

lemma Rule_get_children_literal:
  assumes "literal_symbol (symbol r)"
  shows "Rule_get_children r w = Inr (spec_expand_one_step (symbol r) (patterns r) w)"
proof -
  define s where "s = symbol r"
  from assms have ne: "s \<noteq> []" by (simp add: literal_symbol_def s_def)
  define occ where "occ = spec_occurrences s w"
  define f where "f = (\<lambda>i p. spec_replace_at w (occ ! i) (length s) p)"
  have "re_findall s w = Inr (findall (map Lit s) w)"
    using assms by (simp add: re_findall_def re_compile_literal s_def)
  then have "Rule_get_children r w = occurrences_loop r w [0..<length occ] []"
    by (simp add: Rule_get_children_def Rule_get_children_with_def occ_def s_def [symmetric]
        findall_literal_length [OF ne])
  also have "\<dots> = Inr ([] @ concat (map (\<lambda>i. map (f i) (patterns r)) [0..<length occ]))"
  proof (rule occurrences_loop_eq [where f = f])
    fix i p
    assume "i \<in> set [0..<length occ]"
    then show "replace_nth_substring w (symbol r) p i = Inr (f i p)"
      using replace_nth_substring_literal [OF ne, of i w p]
      by (simp add: occ_def f_def s_def)
  qed
  also have "map (\<lambda>i. map (f i) (patterns r)) [0..<length occ] =
      map (\<lambda>pos. map (\<lambda>p. spec_replace_at w pos (length s) p) (patterns r)) occ"
    by (intro nth_equalityI) (simp_all add: f_def)
  finally show ?thesis by (simp add: spec_expand_one_step_def occ_def s_def)
qed

lemma concat_map_const_length:
  "length (concat (map (\<lambda>x. map (f x) P) xs)) = length xs * length P"
  by (induction xs) auto

lemma concat_map_nth:
  "i < length xs \<Longrightarrow> j < length P \<Longrightarrow>
     concat (map (\<lambda>x. map (f x) P) xs) ! (i * length P + j) = f (xs ! i) (P ! j)"
proof (induction xs arbitrary: i)
  case Nil
  then show ?case by simp
next
  case (Cons x xs)
  show ?case
  proof (cases i)
    case 0
    with Cons.prems show ?thesis by (simp add: nth_append)
  next
    case (Suc i')
    with Cons.prems Cons.IH [of i'] show ?thesis by (simp add: nth_append add.assoc)
  qed
qed

lemma spec_expand_one_step_length:
  "length (spec_expand_one_step s P w) = length (spec_occurrences s w) * length P"
  by (simp add: spec_expand_one_step_def concat_map_const_length)

lemma spec_expand_one_step_nth:
  "i < length (spec_occurrences s w) \<Longrightarrow> j < length P \<Longrightarrow>
     spec_expand_one_step s P w ! (i * length P + j) =
       spec_replace_at w (spec_occurrences s w ! i) (length s) (P ! j)"
  by (simp add: spec_expand_one_step_def concat_map_nth)

lemma spec_occurrences_empty_iff:
  "s \<noteq> [] \<Longrightarrow> spec_occurrences s w = [] \<longleftrightarrow> \<not> sublist s w"
  using occurrences_find_None [of s w] occurrences_find_Some [of s w]
  by (cases "str_find s w") (auto simp: str_in_iff_sublist [symmetric] str_in_def)

lemma Rule_get_children_absent:
  "literal_symbol (symbol r) \<Longrightarrow> \<not> sublist (symbol r) w \<Longrightarrow> Rule_get_children r w = Inr []"
proof -
  assume lit: "literal_symbol (symbol r)" and "\<not> sublist (symbol r) w"
  then have "spec_occurrences (symbol r) w = []"
    by (simp add: spec_occurrences_empty_iff literal_symbol_def)
  with Rule_get_children_literal [OF lit, of w] show ?thesis
    by (simp add: spec_expand_one_step_def)
qed

subsection \<open>Symbols with special characters\<close>

text \<open>
  C1: the number of children is the number of literal occurrences of the symbol times the
  number of patterns, and each child replaces one literal occurrence. The program counts
  with \<^verbatim>\<open>re.findall\<close> and replaces with \<^verbatim>\<open>str.split\<close>. For the symbol \<^verbatim>\<open>.\<close> and the
  sentence \<^verbatim>\<open>ab\<close> the expression matches twice, the literal symbol occurs nowhere, and
  the program returns four children, each a pattern put in front of the sentence; the
  expansion of the specification is empty. \<open>Rule_get_children_literal\<close>,
  \<open>spec_expand_one_step_length\<close> and \<open>spec_expand_one_step_nth\<close> show the claim for literal
  symbols.
\<close>

theorem Rule_get_children_dot_symbol:
  "Rule_get_children \<lparr>symbol = ''.'', patterns = [''x'', ''y'']\<rparr> ''ab'' =
     Inr [''xab'', ''yab'', ''xab'', ''yab''] \<and>
   spec_occurrences ''.'' ''ab'' = [] \<and>
   spec_expand_one_step ''.'' [''x'', ''y''] ''ab'' = []"
  by code_simp

text \<open>
  C8: a rule whose symbol does not occur in the sentence has no children. For the symbol
  \<^verbatim>\<open>.\<close>, which is no substring of \<^verbatim>\<open>ab\<close>, the program returns two children.
  \<open>Rule_get_children_absent\<close> shows the claim for literal symbols.
\<close>

theorem Rule_get_children_absent_dot_symbol:
  "\<not> sublist ''.'' ''ab'' \<and>
   Rule_get_children \<lparr>symbol = ''.'', patterns = [''x'']\<rparr> ''ab'' = Inr [''xab'', ''xab'']"
  by code_simp

section \<open>Single-step expansion of a grammar\<close>

lemma rules_loop_eq:
  "list_all2 (\<lambda>r cs. Rule_get_children_with lib_findall r node = Inr cs) rs css \<Longrightarrow>
     rules_loop lib_findall rs node children = Inr (children @ concat css)"
  by (induction rs css arbitrary: children rule: list_all2_induct) auto

lemma Grammar_get_children_with_concat:
  "list_all2 (\<lambda>r cs. Rule_get_children_with lib_findall r node = Inr cs) (rules g) css \<Longrightarrow>
     Grammar_get_children_with lib_findall g node = Inr (concat css)"
  by (simp add: Grammar_get_children_with_def rules_loop_eq)

lemma Grammar_get_children_concat:
  "list_all2 (\<lambda>r cs. Rule_get_children r node = Inr cs) (rules g) css \<Longrightarrow>
     Grammar_get_children g node = Inr (concat css)"
  unfolding Grammar_get_children_def Rule_get_children_def
  by (rule Grammar_get_children_with_concat)

lemma Grammar_get_children_literal:
  assumes "\<forall>r \<in> set (rules g). literal_symbol (symbol r)"
  shows "Grammar_get_children g node =
     Inr (concat (map (\<lambda>r. spec_expand_one_step (symbol r) (patterns r) node) (rules g)))"
proof (rule Grammar_get_children_concat)
  show "list_all2 (\<lambda>r cs. Rule_get_children r node = Inr cs) (rules g)
     (map (\<lambda>r. spec_expand_one_step (symbol r) (patterns r) node) (rules g))"
    using assms by (simp add: list_all2_conv_all_nth Rule_get_children_literal)
qed

text \<open>
  C4: the children in a grammar are the children by each rule, concatenated in the order
  of the rules (\<open>Grammar_get_children_concat\<close>), and there are none when no symbol of a
  rule occurs in the sentence. For the rules with the symbols \<^verbatim>\<open>A\<close> and \<^verbatim>\<open>.\<close>, neither
  a substring of \<^verbatim>\<open>ab\<close>, the program returns two children.
\<close>

theorem Grammar_get_children_absent_dot_symbol:
  "\<not> sublist ''A'' ''ab'' \<and> \<not> sublist ''.'' ''ab'' \<and>
   Grammar_get_children
     \<lparr>rules = [\<lparr>symbol = ''A'', patterns = [''0'']\<rparr>, \<lparr>symbol = ''.'', patterns = [''x'']\<rparr>]\<rparr>
     ''ab'' = Inr [''xab'', ''xab'']"
  by code_simp

section \<open>The terminal test\<close>

text \<open>
  C2: the filter of \<open>possible_strings\<close> keeps a sentence exactly when some declared
  symbol is not a substring of it; so a sentence that contains one declared symbol and
  lacks another is kept.
\<close>

theorem terminal_test_existential:
  "(terminal_test S w \<longleftrightarrow> (\<exists>s \<in> set S. \<not> sublist s w)) \<and>
   (\<forall>s1 \<in> set S. \<forall>s2 \<in> set S. sublist s1 w \<and> \<not> sublist s2 w \<longrightarrow> terminal_test S w)"
  by (auto simp: terminal_test_def filter_empty_conv str_in_iff_sublist)

theorem terminal_test_existential_witness:
  "sublist ''A'' ''0A'' \<and> \<not> sublist ''B'' ''0A'' \<and> terminal_test [''A'', ''B''] ''0A''"
proof -
  have h1: "sublist ''A'' ''0A''" by code_simp
  have h2: "\<not> sublist ''B'' ''0A''" by code_simp
  from terminal_test_existential [of "[''A'', ''B'']" "''0A''"] h1 h2 show ?thesis by simp
qed

section \<open>The search\<close>

text \<open>
  C3, as the program computes it: for the grammar built from the text
  \<^verbatim>\<open>A -> 0 | 1 | 0A | 1A\<close> and the implicit root, depth 1 gives \<open>0, 1\<close> and depth 2 gives
  \<open>0, 1, 00, 01, 10, 11\<close> in this order, without duplicates: the children of \<open>0A\<close> come
  before those of \<open>1A\<close>.
\<close>

theorem possible_strings_binary:
  "Grammar_init None (Some [''A -> 0 | 1 | 0A | 1A'']) = Inr binary_grammar \<and>
   possible_strings binary_grammar 1 None = Inr [''0'', ''1''] \<and>
   possible_strings binary_grammar 2 None = Inr [''0'', ''1'', ''00'', ''01'', ''10'', ''11''] \<and>
   distinct [''0'', ''1'', ''00'', ''01'', ''10'', ''11'']"
  by (simp add: binary_grammar_init possible_strings_binary_1 possible_strings_binary_2)

text \<open>The order \<open>0, 1, 00, 10, 01, 11\<close> is not the one returned at depth 2.\<close>

theorem possible_strings_binary_order_counterexample:
  "Grammar_init None (Some [''A -> 0 | 1 | 0A | 1A'']) = Inr binary_grammar \<and>
   possible_strings binary_grammar 2 None \<noteq> Inr [''0'', ''1'', ''00'', ''10'', ''01'', ''11'']"
  by (simp add: binary_grammar_init possible_strings_binary_2)


lemma levels_loop_Suc_Inr:
  "levels_loop lib_findall g (Suc n) ls = Inr ys \<Longrightarrow>
     \<exists>xs l. levels_loop lib_findall g n ls = Inr xs \<and> ys = xs @ [l]"
proof (induction n arbitrary: ls)
  case 0
  then show ?case by (auto split: if_splits sum.splits)
next
  case (Suc n)
  from Suc.prems obtain l where ne: "ls \<noteq> []"
    and nl: "nodes_loop lib_findall g (last ls) [] = Inr l"
    and rest: "levels_loop lib_findall g (Suc n) (ls @ [l]) = Inr ys"
    by (auto split: if_splits sum.splits)
  from Suc.IH [OF rest] obtain xs l' where
    "levels_loop lib_findall g n (ls @ [l]) = Inr xs" "ys = xs @ [l']"
    by blast
  with ne nl show ?case by auto
qed

text \<open>
  C6: when the search to a depth of at least 1 returns, the search one level less deep
  returns too, and each of its sentences is among those of the deeper search. This holds
  whatever \<^verbatim>\<open>re.findall\<close> does on the symbols of the grammar: the levels of the
  shallower search are the levels of the deeper one without the last.
\<close>

theorem possible_strings_superset:
  assumes "1 \<le> search_depth"
    and "possible_strings_with lib_findall g search_depth root = Inr ys"
  shows "\<exists>xs. possible_strings_with lib_findall g (search_depth - 1) root = Inr xs \<and>
    set xs \<subseteq> set ys"
proof -
  define r where "r = (case root of None \<Rightarrow> default_root g | Some r \<Rightarrow> r)"
  define n where "n = nat (search_depth - 1)"
  from assms(1) have d: "nat search_depth = Suc n" by (simp add: n_def)
  from assms(2) obtain lv where lv: "levels_loop lib_findall g (Suc n) [[r]] = Inr lv"
    and ys: "ys = filter (terminal_test (get_symbols g)) (concat lv)"
    by (auto simp: possible_strings_with_def Let_def r_def d split: sum.splits)
  from levels_loop_Suc_Inr [OF lv] obtain xs l where
    xs: "levels_loop lib_findall g n [[r]] = Inr xs" and "lv = xs @ [l]" by blast
  then have "possible_strings_with lib_findall g (search_depth - 1) root =
      Inr (filter (terminal_test (get_symbols g)) (concat xs))"
    by (simp add: possible_strings_with_def r_def n_def)
  moreover have "set (filter (terminal_test (get_symbols g)) (concat xs)) \<subseteq> set ys"
    using ys \<open>lv = xs @ [l]\<close> by auto
  ultimately show ?thesis by blast
qed

theorem possible_strings_superset_witness:
  "\<exists>xs. possible_strings binary_grammar 1 None = Inr xs \<and>
     set xs \<subseteq> set [''0'', ''1'', ''00'', ''01'', ''10'', ''11'']"
proof -
  have h: "possible_strings_with re_findall binary_grammar 2 None =
      Inr [''0'', ''1'', ''00'', ''01'', ''10'', ''11'']"
    using possible_strings_binary_2 by (simp add: possible_strings_def)
  have "(1::int) \<le> 2" by simp
  from possible_strings_superset [OF this h] show ?thesis
    by (simp add: possible_strings_def)
qed

subsection \<open>Searches that return\<close>

text \<open>With literal symbols only, every search returns.\<close>

lemma nodes_loop_total:
  "\<forall>r \<in> set (rules g). literal_symbol (symbol r) \<Longrightarrow>
     \<exists>ys. nodes_loop re_findall g nodes acc = Inr ys"
  using Grammar_get_children_literal [of g]
  by (induction nodes arbitrary: acc) (auto simp: Grammar_get_children_def)

lemma levels_loop_total:
  "\<forall>r \<in> set (rules g). literal_symbol (symbol r) \<Longrightarrow> levels \<noteq> [] \<Longrightarrow>
     \<exists>ys. levels_loop re_findall g n levels = Inr ys"
proof (induction n arbitrary: levels)
  case 0
  then show ?case by simp
next
  case (Suc n)
  from nodes_loop_total [OF Suc.prems(1)] obtain l where
    "nodes_loop re_findall g (last levels) [] = Inr l"
    by blast
  with Suc.prems Suc.IH [of "levels @ [l]"] show ?case by simp
qed

lemma possible_strings_total:
  "\<forall>r \<in> set (rules g). literal_symbol (symbol r) \<Longrightarrow> \<exists>ys. possible_strings g d root = Inr ys"
  using levels_loop_total
    [of g "[[case root of None \<Rightarrow> default_root g | Some r \<Rightarrow> r]]" "nat d"]
  by (auto simp: possible_strings_def possible_strings_with_def)

section \<open>Construction\<close>

lemma Rule_init_text_binary:
  "Rule_init None None (Some ''A -> 0 | 1'') = Inr \<lparr>symbol = ''A'', patterns = [''0'', ''1'']\<rparr>"
  by code_simp

text \<open>
  C9: the rule built from the text \<^verbatim>\<open>A -> 0 | 1\<close> and the rule built from the symbol
  \<^verbatim>\<open>A\<close> and the patterns \<^verbatim>\<open>0\<close>, \<^verbatim>\<open>1\<close> have the same children on every sentence.
\<close>

theorem Rule_init_text_roundtrip:
  "\<exists>r1 r2. Rule_init None None (Some ''A -> 0 | 1'') = Inr r1 \<and>
     Rule_init (Some ''A'') (Some [''0'', ''1'']) None = Inr r2 \<and>
     (\<forall>w. Rule_get_children r1 w = Rule_get_children r2 w)"
  by (simp add: Rule_init_text_binary) (simp add: Rule_init_def)

lemma strings_to_rules_Inr:
  "strings_to_rules strings = Inr rs \<Longrightarrow>
     list_all2 (\<lambda>x r. Rule_init None None (Some x) = Inr r) strings rs"
  by (induction strings arbitrary: rs) (auto split: sum.splits)

text \<open>
  C10: with both arguments given, the grammar is the one built from \<open>string_rules\<close>
  alone, whatever \<open>rules\<close> is: its rules are the given texts, parsed one by one.
\<close>

theorem Grammar_init_string_rules_first:
  "Grammar_init (Some rs) (Some strings) = Grammar_init None (Some strings) \<and>
   (\<forall>g. Grammar_init (Some rs) (Some strings) = Inr g \<longrightarrow>
      list_all2 (\<lambda>x r. Rule_init None None (Some x) = Inr r) strings (rules g))"
  by (auto simp: Grammar_init_def split: sum.splits dest: strings_to_rules_Inr)

theorem Grammar_init_string_rules_first_witness:
  "Grammar_init (Some [\<lparr>symbol = ''B'', patterns = [''1'']\<rparr>]) (Some [''A -> 0 | 1'']) =
     Inr \<lparr>rules = [\<lparr>symbol = ''A'', patterns = [''0'', ''1'']\<rparr>]\<rparr> \<and>
   list_all2 (\<lambda>x r. Rule_init None None (Some x) = Inr r) [''A -> 0 | 1'']
     [\<lparr>symbol = ''A'', patterns = [''0'', ''1'']\<rparr>]"
proof -
  have e: "Grammar_init (Some [\<lparr>symbol = ''B'', patterns = [''1'']\<rparr>]) (Some [''A -> 0 | 1'']) =
     Inr \<lparr>rules = [\<lparr>symbol = ''A'', patterns = [''0'', ''1'']\<rparr>]\<rparr>"
    by (simp add: Grammar_init_def Rule_init_text_binary)
  with Grammar_init_string_rules_first
    [of "[\<lparr>symbol = ''B'', patterns = [''1'']\<rparr>]" "[''A -> 0 | 1'']"]
  show ?thesis by simp
qed

subsection \<open>Exceptions\<close>

lemma string_to_rule_info_error: "string_to_rule_info x = Inl e \<Longrightarrow> e = ValueError"
  by (auto simp: string_to_rule_info_def py_split_def split: sum.splits list.splits if_splits)

lemma strings_to_rules_error: "strings_to_rules xs = Inl e \<Longrightarrow> e = ValueError"
  by (induction xs)
    (auto simp: Rule_init_def split: sum.splits prod.splits dest: string_to_rule_info_error)

text \<open>\<open>GrammarError\<close> is raised exactly when both arguments are missing.\<close>

lemma Grammar_init_GrammarError:
  "Grammar_init rs strings = Inl GrammarError \<longleftrightarrow> rs = None \<and> strings = None"
  by (auto simp: Grammar_init_def split: option.splits sum.splits dest: strings_to_rules_error)

text \<open>The empty symbol: \<^verbatim>\<open>str.split\<close> raises \<open>ValueError\<close> on the empty separator.\<close>

lemma Rule_get_children_empty_symbol:
  "Rule_get_children \<lparr>symbol = [], patterns = [''x'']\<rparr> ''a'' = Inl ValueError"
  by code_simp

text \<open>
  C7: only the construction of a grammar without rules raises
  (\<open>Grammar_init_GrammarError\<close>), and every other operation returns. For the symbol \<^verbatim>\<open>+\<close>
  the regular expression does not compile: the expansion by the rule, the expansion in
  the grammar and the search raise \<^verbatim>\<open>re.error\<close>. \<open>possible_strings_total\<close> shows that the
  search returns when all symbols are literal.
\<close>

theorem get_children_plus_symbol_raises:
  "Rule_get_children \<lparr>symbol = ''+'', patterns = [''x'']\<rparr> ''a'' = Inl ReError \<and>
   Grammar_get_children \<lparr>rules = [\<lparr>symbol = ''+'', patterns = [''x'']\<rparr>]\<rparr> ''a'' = Inl ReError \<and>
   possible_strings \<lparr>rules = [\<lparr>symbol = ''+'', patterns = [''x'']\<rparr>]\<rparr> 1 None = Inl ReError"
  by code_simp

end
